theory Spec2Isabelle
  imports Main "HOL-Library.Word"
begin

section \<open>The photo capture component (ImageUpload)\<close>

subsection \<open>Files, payloads and the platform's file reader\<close>

type_synonym byte = "8 word"

text \<open>A browser \<open>File\<close>: its name, its declared content type (\<open>file.type\<close>, the empty
  string when the browser knows none) and its bytes.\<close>

record jsfile =
  fname :: string
  ftype :: string
  content :: "byte list"

text \<open>The object handed to \<open>onSubmit\<close>. The field \<open>base64\<close> is \<open>None\<close> where the
  JavaScript value is \<open>undefined\<close>.\<close>

record payload =
  base64 :: "string option"
  mimeType :: string

datatype js_error = ReadFailure | TypeError | IOError

text \<open>What the \<open>FileReader\<close> reports: \<open>onload\<close> with \<open>reader.result\<close>, or \<open>onerror\<close>.\<close>

datatype read_result = Loaded string | ReadError

subsection \<open>Base64 (RFC 4648) and data URLs, as the platform produces them\<close>

definition b64_char :: "nat \<Rightarrow> char" where
  "b64_char k =
     (if k < 26 then char_of (65 + k)
      else if k < 52 then char_of (71 + k)
      else if k < 62 then char_of (k - 4)
      else if k = 62 then CHR ''+''
      else CHR ''/'')"

definition b64_index :: "char \<Rightarrow> nat option" where
  "b64_index c =
     (let n = (of_char c :: nat) in
      if 65 \<le> n \<and> n \<le> 90 then Some (n - 65)
      else if 97 \<le> n \<and> n \<le> 122 then Some (n - 71)
      else if 48 \<le> n \<and> n \<le> 57 then Some (n + 4)
      else if c = CHR ''+'' then Some 62
      else if c = CHR ''/'' then Some 63
      else None)"

fun base64_encode :: "byte list \<Rightarrow> string" where
  "base64_encode [] = []"
| "base64_encode [a] =
     [b64_char (unat a div 4), b64_char ((unat a mod 4) * 16), CHR ''='', CHR ''='']"
| "base64_encode [a, b] =
     [b64_char (unat a div 4),
      b64_char ((unat a mod 4) * 16 + unat b div 16),
      b64_char ((unat b mod 16) * 4),
      CHR ''='']"
| "base64_encode (a # b # c # bs) =
     [b64_char (unat a div 4),
      b64_char ((unat a mod 4) * 16 + unat b div 16),
      b64_char ((unat b mod 16) * 4 + unat c div 64),
      b64_char (unat c mod 64)] @ base64_encode bs"

definition decode_full :: "char \<Rightarrow> char \<Rightarrow> char \<Rightarrow> char \<Rightarrow> byte list option" where
  "decode_full c1 c2 c3 c4 =
     (case (b64_index c1, b64_index c2, b64_index c3, b64_index c4) of
        (Some i1, Some i2, Some i3, Some i4) \<Rightarrow>
          Some [of_nat (i1 * 4 + i2 div 16),
                of_nat ((i2 mod 16) * 16 + i3 div 4),
                of_nat ((i3 mod 4) * 64 + i4)]
      | _ \<Rightarrow> None)"

definition decode_padded :: "char \<Rightarrow> char \<Rightarrow> char \<Rightarrow> byte list option" where
  "decode_padded c1 c2 c3 =
     (if c3 = CHR ''='' then
        (case (b64_index c1, b64_index c2) of
           (Some i1, Some i2) \<Rightarrow> Some [of_nat (i1 * 4 + i2 div 16)]
         | _ \<Rightarrow> None)
      else
        (case (b64_index c1, b64_index c2, b64_index c3) of
           (Some i1, Some i2, Some i3) \<Rightarrow>
             Some [of_nat (i1 * 4 + i2 div 16), of_nat ((i2 mod 16) * 16 + i3 div 4)]
         | _ \<Rightarrow> None))"

fun base64_decode :: "string \<Rightarrow> byte list option" where
  "base64_decode [] = Some []"
| "base64_decode (c1 # c2 # c3 # c4 # cs) =
     (if c4 = CHR ''='' then (if cs = [] then decode_padded c1 c2 c3 else None)
      else (case decode_full c1 c2 c3 c4 of
              None \<Rightarrow> None
            | Some bs \<Rightarrow> (case base64_decode cs of None \<Rightarrow> None | Some r \<Rightarrow> Some (bs @ r))))"
| "base64_decode _ = None"

text \<open>\<open>reader.readAsDataURL(file)\<close>: the text \<open>data:<media type>;base64,<data>\<close>, where
  the browser writes \<open>application/octet-stream\<close> for a file without a declared type.
  The declared type is copied as it is; an engine may instead substitute another media
  type for a declared type it cannot parse, which changes the header only.\<close>

definition data_url :: "jsfile \<Rightarrow> string" where
  "data_url f =
     ''data:'' @ (if ftype f = [] then ''application/octet-stream'' else ftype f)
       @ '';base64,'' @ base64_encode (content f)"

definition readAsDataURL :: "jsfile \<Rightarrow> bool \<Rightarrow> read_result" where
  "readAsDataURL f ok = (if ok then Loaded (data_url f) else ReadError)"

subsection \<open>JavaScript string helpers\<close>

text \<open>\<open>str.split(sep)\<close> for a one-character separator.\<close>

fun split_on :: "char \<Rightarrow> string \<Rightarrow> string list" where
  "split_on sep [] = [[]]"
| "split_on sep (c # cs) =
     (if c = sep then [] # split_on sep cs
      else (case split_on sep cs of [] \<Rightarrow> [[c]] | w # ws \<Rightarrow> (c # w) # ws))"

text \<open>\<open>xs[i]\<close>: \<open>undefined\<close> out of range.\<close>

definition at_index :: "'a list \<Rightarrow> nat \<Rightarrow> 'a option" where
  "at_index xs i = (if i < length xs then Some (xs ! i) else None)"

subsection \<open>Component state\<close>

datatype effect = OnSubmit payload | OnSkip | ConsoleError js_error

text \<open>The three \<open>useState\<close> cells and the two \<open>useRef\<close> cells of the component (a ref is
  \<open>None\<close> while its input element is not mounted, else the input's value), together with
  what lives outside it: the reads in flight (each the suspended rest of one
  \<open>processImage\<close> call, with the file it closed over), the object URLs created so far
  (URL number \<open>n\<close> resolves to \<open>objectURLs ! n\<close>; none is ever revoked) and the calls made
  to \<open>onSubmit\<close>, \<open>onSkip\<close> and \<open>console.error\<close>.\<close>

record component =
  preview :: "nat option"
  imageData :: "payload option"
  loading :: bool
  fileInputRef :: "string option"
  cameraInputRef :: "string option"
  inflight :: "jsfile list"
  objectURLs :: "jsfile list"
  effects :: "effect list"

definition init :: component where
  "init = \<lparr>preview = None, imageData = None, loading = False,
           fileInputRef = Some [], cameraInputRef = Some [],
           inflight = [], objectURLs = [], effects = []\<rparr>"

subsection \<open>The handlers\<close>

text \<open>\<open>fileToBase64\<close>, given what the reader reports: the promise resolves with
  \<open>reader.result.split(',')[1]\<close> or rejects.\<close>

definition fileToBase64 :: "read_result \<Rightarrow> js_error + string option" where
  "fileToBase64 r =
     (case r of
        Loaded result \<Rightarrow> Inr (at_index (split_on CHR '','' result) 1)
      | ReadError \<Rightarrow> Inl ReadFailure)"

text \<open>\<open>processImage\<close> up to its \<open>await\<close>: \<open>setLoading(true)\<close>, the preview URL, and the
  read is started.\<close>

definition processImage_begin :: "jsfile \<Rightarrow> component \<Rightarrow> component" where
  "processImage_begin f s =
     s\<lparr>loading := True,
       preview := Some (length (objectURLs s)),
       objectURLs := objectURLs s @ [f],
       inflight := inflight s @ [f]\<rparr>"

definition mk_payload :: "jsfile \<Rightarrow> string option \<Rightarrow> payload" where
  "mk_payload f b =
     \<lparr>base64 = b, mimeType = (if ftype f = [] then ''image/jpeg'' else ftype f)\<rparr>"

text \<open>\<open>processImage\<close> after its \<open>await\<close>: \<open>setImageData\<close> on success, \<open>console.error\<close> in
  the \<open>catch\<close>, \<open>setLoading(false)\<close> in the \<open>finally\<close>.\<close>

definition processImage_finish :: "jsfile \<Rightarrow> read_result \<Rightarrow> component \<Rightarrow> component" where
  "processImage_finish f r s =
     (case fileToBase64 r of
        Inr b \<Rightarrow> s\<lparr>imageData := Some (mk_payload f b), loading := False\<rparr>
      | Inl err \<Rightarrow> s\<lparr>effects := effects s @ [ConsoleError err], loading := False\<rparr>)"

definition handleFileSelect :: "jsfile option \<Rightarrow> component \<Rightarrow> component" where
  "handleFileSelect fo s = (case fo of None \<Rightarrow> s | Some f \<Rightarrow> processImage_begin f s)"

definition handleSubmit :: "component \<Rightarrow> component" where
  "handleSubmit s =
     (case imageData s of
        Some d \<Rightarrow> s\<lparr>effects := effects s @ [OnSubmit d]\<rparr>
      | None \<Rightarrow> s)"

definition handleClear :: "component \<Rightarrow> component" where
  "handleClear s =
     s\<lparr>preview := None,
       imageData := None,
       fileInputRef := (case fileInputRef s of Some v \<Rightarrow> Some [] | None \<Rightarrow> None),
       cameraInputRef := (case cameraInputRef s of Some v \<Rightarrow> Some [] | None \<Rightarrow> None)\<rparr>"

subsection \<open>Rendering\<close>

text \<open>What the returned JSX shows: the prompt, either the two file inputs or the preview
  with its Remove button, the spinner, the submit button (\<open>None\<close> when it is not
  rendered, else its \<open>disabled\<close> attribute) and the \<open>disabled\<close> attribute of the skip
  button.\<close>

record view =
  prompt_text :: string
  inputs_shown :: bool
  preview_src :: "nat option"
  spinner_shown :: bool
  submit_button :: "bool option"
  skip_disabled :: bool

definition default_prompt :: string where
  "default_prompt = ''A photo would help me create more specific steps for you!''"

definition render :: "string option \<Rightarrow> component \<Rightarrow> view" where
  "render prompt s =
     \<lparr>prompt_text = (case prompt of None \<Rightarrow> default_prompt
                      | Some p \<Rightarrow> if p = [] then default_prompt else p),
      inputs_shown = (preview s = None),
      preview_src = preview s,
      spinner_shown = loading s,
      submit_button = (if preview s \<noteq> None \<and> imageData s \<noteq> None then Some (loading s) else None),
      skip_disabled = loading s\<rparr>"

definition submit_enabled :: "component \<Rightarrow> bool" where
  "submit_enabled s = (submit_button (render None s) = Some False)"

definition skip_enabled :: "component \<Rightarrow> bool" where
  "skip_enabled s = (\<not> skip_disabled (render None s))"

subsection \<open>Events\<close>

datatype surface = Camera | Gallery

datatype event =
    PickFile surface "jsfile option"
  | ReadSettled nat bool
  | ClickSubmit
  | ClickSkip
  | ClickRemove

text \<open>After a state change React renders again: the two inputs are mounted exactly while
  there is no preview.\<close>

definition commit :: "component \<Rightarrow> component" where
  "commit s =
     (if preview s = None
      then s\<lparr>fileInputRef := Some (case fileInputRef s of None \<Rightarrow> [] | Some v \<Rightarrow> v),
             cameraInputRef := Some (case cameraInputRef s of None \<Rightarrow> [] | Some v \<Rightarrow> v)\<rparr>
      else s\<lparr>fileInputRef := None, cameraInputRef := None\<rparr>)"

definition input_value :: "jsfile option \<Rightarrow> string" where
  "input_value fo = (case fo of None \<Rightarrow> [] | Some f \<Rightarrow> ''C:/fakepath/'' @ fname f)"

definition set_input :: "surface \<Rightarrow> jsfile option \<Rightarrow> component \<Rightarrow> component" where
  "set_input src fo s =
     (case src of
        Camera \<Rightarrow> s\<lparr>cameraInputRef := Some (input_value fo)\<rparr>
      | Gallery \<Rightarrow> s\<lparr>fileInputRef := Some (input_value fo)\<rparr>)"

definition remove_at :: "nat \<Rightarrow> 'a list \<Rightarrow> 'a list" where
  "remove_at k xs = take k xs @ drop (Suc k) xs"

text \<open>One event of the single-threaded event loop. An element that is not rendered, or is
  disabled, receives no click; the \<open>k\<close>-th read in flight settles with success or
  failure as the platform decides.\<close>

fun ui_step :: "event \<Rightarrow> component \<Rightarrow> component" where
  "ui_step (PickFile src fo) s =
     (if preview s = None then commit (handleFileSelect fo (set_input src fo s)) else s)"
| "ui_step (ReadSettled k ok) s =
     (if k < length (inflight s)
      then commit (processImage_finish (inflight s ! k) (readAsDataURL (inflight s ! k) ok)
                     (s\<lparr>inflight := remove_at k (inflight s)\<rparr>))
      else s)"
| "ui_step ClickSubmit s =
     (if submit_button (render None s) = Some False then handleSubmit s else s)"
| "ui_step ClickSkip s =
     (if skip_disabled (render None s) then s else s\<lparr>effects := effects s @ [OnSkip]\<rparr>)"
| "ui_step ClickRemove s =
     (if preview s \<noteq> None then commit (handleClear s) else s)"

fun run :: "event list \<Rightarrow> component \<Rightarrow> component" where
  "run [] s = s"
| "run (e # es) s = run es (ui_step e s)"

text \<open>The payload a successful encode of file \<open>f\<close> stores.\<close>

definition encoded_payload :: "jsfile \<Rightarrow> payload" where
  "encoded_payload f = mk_payload f (at_index (split_on CHR '','' (data_url f)) 1)"




text \<open>Sample files used to evaluate the model.\<close>

definition sample_png :: jsfile where
  "sample_png = \<lparr>fname = ''a.png'', ftype = ''image/png'', content = [0x41]\<rparr>"

definition sample_untyped :: jsfile where
  "sample_untyped = \<lparr>fname = ''b'', ftype = [], content = [0x42, 0x43]\<rparr>"

definition ready_state :: component where
  "ready_state = run [PickFile Gallery (Some sample_png), ReadSettled 0 True] init"

definition loading_state :: component where
  "loading_state = ui_step (PickFile Gallery (Some sample_png)) init"

definition loading_untyped :: component where
  "loading_untyped = ui_step (PickFile Camera (Some sample_untyped)) init"



definition overlapped :: component where
  "overlapped =
     run [PickFile Gallery (Some sample_png), ClickRemove,
          PickFile Gallery (Some sample_untyped), ReadSettled 1 True, ReadSettled 0 True] init"

definition stale_then_failed :: component where
  "stale_then_failed =
     run [PickFile Gallery (Some sample_png), ClickRemove, ReadSettled 0 True,
          PickFile Camera (Some sample_untyped), ReadSettled 0 False] init"

section \<open>The development-time response logger (vite-api-logger)\<close>

subsection \<open>Values and platform functions\<close>

text \<open>The first argument of \<open>res.write\<close> and \<open>res.end\<close>: nothing (\<open>undefined\<close> or
  \<open>null\<close>), a string, a \<open>Buffer\<close>, or a function (Node accepts \<open>res.end(callback)\<close>).\<close>

datatype chunk = Absent | Text string | Binary "byte list" | Callback

definition truthy :: "chunk \<Rightarrow> bool" where
  "truthy c = (case c of Absent \<Rightarrow> False | Text t \<Rightarrow> t \<noteq> [] | Binary b \<Rightarrow> True | Callback \<Rightarrow> True)"

text \<open>\<open>Buffer.isBuffer(chunk) ? chunk : Buffer.from(chunk)\<close>; \<open>Buffer.from\<close> throws a
  \<open>TypeError\<close> for an argument that is neither a string nor an object. Strings are
  modelled as byte strings, so the UTF-8 conversions are the identity on character codes
  (\<open>Buffer.toString\<close> would replace an invalid sequence; that changes the logged text
  only).\<close>

definition to_buffer :: "chunk \<Rightarrow> js_error + byte list" where
  "to_buffer c =
     (case c of
        Binary b \<Rightarrow> Inr b
      | Text t \<Rightarrow> Inr (map (\<lambda>ch. of_nat (of_char ch)) t)
      | Absent \<Rightarrow> Inl TypeError
      | Callback \<Rightarrow> Inl TypeError)"

definition utf8_string :: "byte list \<Rightarrow> string" where
  "utf8_string bs = map (\<lambda>b. char_of (unat b)) bs"

function show_nat :: "nat \<Rightarrow> string" where
  "show_nat n =
     (if n < 10 then [char_of (48 + n)]
      else show_nat (n div 10) @ [char_of (48 + n mod 10)])"
  by pat_completeness auto
termination
  by (relation "measure id") auto

declare show_nat.simps [simp del]

fun join_with :: "string \<Rightarrow> string list \<Rightarrow> string" where
  "join_with sep [] = []"
| "join_with sep [x] = x"
| "join_with sep (x # y # ys) = x @ sep @ join_with sep (y # ys)"

definition startsWith :: "string \<Rightarrow> string \<Rightarrow> bool" where
  "startsWith u p = (take (length p) u = p)"

record request =
  rmethod :: string
  rurl :: "string option"

text \<open>What the platform decides for one log entry: the clock, whether
  \<open>fs.appendFileSync\<close> succeeds, and \<open>JSON.stringify(JSON.parse(body), null, 2)\<close>
  (\<open>None\<close> when \<open>JSON.parse\<close> throws).\<close>

record env =
  now :: string
  writable :: bool
  pretty_json :: "string \<Rightarrow> string option"

datatype console_line = LogLine string | ErrorLine js_error

text \<open>The response as the original methods see it (\<open>response\<close>), the chunks collected
  by the wrappers, the content of \<open>api-logs.txt\<close> and the console.\<close>

record 'r world =
  response :: 'r
  chunks :: "byte list list"
  log_file :: string
  console :: "console_line list"

text \<open>An original (bound) response method: it returns a value or throws, and leaves
  the response changed.\<close>

type_synonym ('r, 'a, 'v) res_method = "chunk \<Rightarrow> 'a \<Rightarrow> 'r \<Rightarrow> (js_error + 'v) \<times> 'r"

subsection \<open>The plugin\<close>

definition rule_line :: string where
  "rule_line = concat (replicate 50 [CHR 0xE2, CHR 0x94, CHR 0x80])"

definition logToFile :: "env \<Rightarrow> string \<Rightarrow> string \<Rightarrow> js_error + string" where
  "logToFile e entry file_content =
     (let logEntry = ''['' @ now e @ '']'' @ [CHR 0x0A] @ entry @ [CHR 0x0A] @ rule_line
                       @ [CHR 0x0A, CHR 0x0A]
      in if writable e then Inr (file_content @ logEntry) else Inl IOError)"

definition apiPaths :: "string list" where
  "apiPaths = [''/users'', ''/tasks'', ''/energy'', ''/api'']"

definition isApiCall :: "request \<Rightarrow> bool" where
  "isApiCall req =
     (case rurl req of None \<Rightarrow> False | Some u \<Rightarrow> list_ex (\<lambda>p. startsWith u p) apiPaths)"

definition url_text :: "request \<Rightarrow> string" where
  "url_text req = (case rurl req of None \<Rightarrow> ''undefined'' | Some u \<Rightarrow> u)"

text \<open>\<open>if (chunk) chunks.push(...)\<close>, the first statement of both wrappers.\<close>

definition capture :: "chunk \<Rightarrow> byte list list \<Rightarrow> js_error + byte list list" where
  "capture c cs =
     (if truthy c
      then (case to_buffer c of Inl err \<Rightarrow> Inl err | Inr b \<Rightarrow> Inr (cs @ [b]))
      else Inr cs)"

text \<open>The wrappers. An exception thrown while the chunk is collected leaves the wrapper
  at once; otherwise the outcome is the original method's.\<close>

definition res_write ::
  "('r, 'a, 'v) res_method \<Rightarrow> chunk \<Rightarrow> 'a \<Rightarrow> 'r world \<Rightarrow> (js_error + 'v) \<times> 'r world" where
  "res_write originalWrite c args w =
     (case capture c (chunks w) of
        Inl err \<Rightarrow> (Inl err, w)
      | Inr cs \<Rightarrow>
          (case originalWrite c args (response w) of
             (out, r) \<Rightarrow> (out, w\<lparr>chunks := cs, response := r\<rparr>)))"

text \<open>The \<open>try\<close> block of the \<open>end\<close> wrapper with its \<open>catch\<close>: the entry is built and
  appended, and a failure goes to \<open>console.error\<close>.\<close>

definition log_response :: "env \<Rightarrow> request \<Rightarrow> nat \<Rightarrow> 'r world \<Rightarrow> 'r world" where
  "log_response e req statusCode w =
     (let body = utf8_string (concat (chunks w));
          formattedBody = (case pretty_json e body of Some p \<Rightarrow> p | None \<Rightarrow> body);
          logEntry = join_with [CHR 0x0A]
                       [rmethod req @ '' '' @ url_text req,
                        ''Status: '' @ show_nat statusCode,
                        ''Response:'',
                        formattedBody]
      in case logToFile e logEntry (log_file w) of
           Inr content' \<Rightarrow>
             w\<lparr>log_file := content',
               console := console w
                 @ [LogLine ([CHR 0xF0, CHR 0x9F, CHR 0x93, CHR 0x9D] @ '' Logged API response: ''
                              @ rmethod req @ '' '' @ url_text req)]\<rparr>
         | Inl err \<Rightarrow> w\<lparr>console := console w @ [ErrorLine err]\<rparr>)"

definition res_end ::
  "env \<Rightarrow> request \<Rightarrow> ('r \<Rightarrow> nat) \<Rightarrow> ('r, 'a, 'v) res_method \<Rightarrow> chunk \<Rightarrow> 'a \<Rightarrow> 'r world
     \<Rightarrow> (js_error + 'v) \<times> 'r world" where
  "res_end e req statusOf originalEnd c args w =
     (case capture c (chunks w) of
        Inl err \<Rightarrow> (Inl err, w)
      | Inr cs \<Rightarrow>
          (let w1 = log_response e req (statusOf (response w)) (w\<lparr>chunks := cs\<rparr>)
           in case originalEnd c args (response w1) of
                (out, r) \<Rightarrow> (out, w1\<lparr>response := r\<rparr>)))"

text \<open>The middleware leaves the response's methods alone for a request outside the
  allowlist and installs the two wrappers otherwise; it calls \<open>next()\<close> in both cases.\<close>

datatype installed = Originals | Wrappers

definition middleware :: "request \<Rightarrow> installed" where
  "middleware req = (if \<not> isApiCall req then Originals else Wrappers)"

text \<open>The calls a downstream handler makes on the response, dispatched to whatever
  the middleware left installed.\<close>

datatype 'a call = Write chunk 'a | End chunk 'a

definition unwrapped ::
  "('r, 'a, 'v) res_method \<Rightarrow> chunk \<Rightarrow> 'a \<Rightarrow> 'r world \<Rightarrow> (js_error + 'v) \<times> 'r world" where
  "unwrapped original c args w =
     (case original c args (response w) of (out, r) \<Rightarrow> (out, w\<lparr>response := r\<rparr>))"

definition invoke ::
  "installed \<Rightarrow> env \<Rightarrow> request \<Rightarrow> ('r \<Rightarrow> nat) \<Rightarrow> ('r, 'a, 'v) res_method
     \<Rightarrow> ('r, 'a, 'v) res_method \<Rightarrow> 'a call \<Rightarrow> 'r world \<Rightarrow> (js_error + 'v) \<times> 'r world" where
  "invoke inst e req statusOf originalWrite originalEnd cl w =
     (case (inst, cl) of
        (Originals, Write c args) \<Rightarrow> unwrapped originalWrite c args w
      | (Originals, End c args) \<Rightarrow> unwrapped originalEnd c args w
      | (Wrappers, Write c args) \<Rightarrow> res_write originalWrite c args w
      | (Wrappers, End c args) \<Rightarrow> res_end e req statusOf originalEnd c args w)"

fun call_chunk :: "'a call \<Rightarrow> chunk" where
  "call_chunk (Write c args) = c"
| "call_chunk (End c args) = c"

text \<open>A handler's calls in sequence, up to the first one that throws.\<close>

fun run_calls ::
  "installed \<Rightarrow> env \<Rightarrow> request \<Rightarrow> ('r \<Rightarrow> nat) \<Rightarrow> ('r, 'a, 'v) res_method
     \<Rightarrow> ('r, 'a, 'v) res_method \<Rightarrow> 'a call list \<Rightarrow> 'r world
     \<Rightarrow> (js_error + 'v list) \<times> 'r world" where
  "run_calls inst e req statusOf ow oe [] w = (Inr [], w)"
| "run_calls inst e req statusOf ow oe (cl # cls) w =
     (case invoke inst e req statusOf ow oe cl w of
        (Inl err, w') \<Rightarrow> (Inl err, w')
      | (Inr v, w') \<Rightarrow>
          (case run_calls inst e req statusOf ow oe cls w' of
             (Inl err, w'') \<Rightarrow> (Inl err, w'')
           | (Inr vs, w'') \<Rightarrow> (Inr (v # vs), w'')))"

text \<open>What the client and the calling handler can observe of a call: the exception or
  the value returned, and the response.\<close>

definition observable :: "'x \<times> 'r world \<Rightarrow> 'x \<times> 'r" where
  "observable out = (fst out, response (snd out))"

text \<open>A sample response: it records the calls that reach its original methods.\<close>

definition record_call :: "string \<Rightarrow> (string list, unit, bool) res_method" where
  "record_call name c args r =
     (Inr True, r @ [name @ (case c of Absent \<Rightarrow> ''()'' | Text t \<Rightarrow> ''(text)''
                              | Binary b \<Rightarrow> ''(buffer)'' | Callback \<Rightarrow> ''(callback)'')])"

definition sample_env :: env where
  "sample_env = \<lparr>now = ''2024-01-01T00:00:00.000Z'', writable = False,
                 pretty_json = (\<lambda>body. None)\<rparr>"

definition sample_request :: request where
  "sample_request = \<lparr>rmethod = ''GET'', rurl = Some ''/api/health''\<rparr>"

definition sample_world :: "string list world" where
  "sample_world = \<lparr>response = [], chunks = [], log_file = ''=== API Response Logs ==='',
                   console = []\<rparr>"

section \<open>Base64: decoding inverts encoding\<close>

lemma byte_bound: "unat (a :: byte) < 256"
  using unsigned_less [of a] by simp

lemma sextet1_bound: "(a::nat) < 256 \<Longrightarrow> a div 4 < 64" by simp
lemma sextet2_bound: "(b::nat) < 256 \<Longrightarrow> (a mod 4) * 16 + b div 16 < 64"
proof -
  assume "b < 256"
  then have "b div 16 < 16" by simp
  moreover have "a mod 4 < 4" by simp
  ultimately show ?thesis by linarith
qed
lemma sextet3_bound: "(c::nat) < 256 \<Longrightarrow> (b mod 16) * 4 + c div 64 < 64"
proof -
  assume "c < 256"
  then have "c div 64 < 4" by simp
  moreover have "b mod 16 < 16" by simp
  ultimately show ?thesis by linarith
qed
lemma sextet2_pad_bound: "((a::nat) mod 4) * 16 < 64"
proof -
  have "a mod 4 < 4" by simp
  then show ?thesis by linarith
qed
lemma sextet3_pad_bound: "((b::nat) mod 16) * 4 < 64"
proof -
  have "b mod 16 < 16" by simp
  then show ?thesis by linarith
qed

lemma join_byte1: "(b::nat) < 256 \<Longrightarrow> (a div 4) * 4 + ((a mod 4) * 16 + b div 16) div 16 = a"
proof -
  assume "b < 256"
  then have "b div 16 < 16" by simp
  then have "((a mod 4) * 16 + b div 16) div 16 = a mod 4" by simp
  then show ?thesis by simp
qed

lemma join_byte2: "(b::nat) < 256 \<Longrightarrow> (c::nat) < 256 \<Longrightarrow>
   (((a mod 4) * 16 + b div 16) mod 16) * 16 + ((b mod 16) * 4 + c div 64) div 4 = b"
proof -
  assume "b < 256" "c < 256"
  then have "b div 16 < 16" "c div 64 < 4" by simp_all
  then have "((a mod 4) * 16 + b div 16) mod 16 = b div 16"
    and "((b mod 16) * 4 + c div 64) div 4 = b mod 16" by simp_all
  then show ?thesis by simp
qed

lemma join_byte3: "(c::nat) < 256 \<Longrightarrow> (((b mod 16) * 4 + c div 64) mod 4) * 64 + c mod 64 = c"
proof -
  assume "c < 256"
  then have "c div 64 < 4" by simp
  then have "((b mod 16) * 4 + c div 64) mod 4 = c div 64" by simp
  then show ?thesis by simp
qed

lemma join_byte1_pad: "((a::nat) div 4) * 4 + ((a mod 4) * 16) div 16 = a"
  by simp

lemma join_byte2_pad: "(b::nat) < 256 \<Longrightarrow> (((a mod 4) * 16 + b div 16) mod 16) * 16 + ((b mod 16) * 4) div 4 = b"
proof -
  assume "b < 256"
  then have "b div 16 < 16" by simp
  then have "((a mod 4) * 16 + b div 16) mod 16 = b div 16" by simp
  then show ?thesis by simp
qed


lemma of_char_b64_char:
  "k < 64 \<Longrightarrow> (of_char (b64_char k) :: nat) =
     (if k < 26 then 65 + k else if k < 52 then 71 + k else if k < 62 then k - 4
      else if k = 62 then 43 else 47)"
  by (simp add: b64_char_def)

lemma b64_index_char: "k < 64 \<Longrightarrow> b64_index (b64_char k) = Some k"
  unfolding b64_index_def Let_def
  apply (simp only: of_char_b64_char)
  apply (auto simp: b64_char_def)
  done

lemma b64_char_neq:
  assumes "k < 64" "(of_char c :: nat) \<in> {44, 58, 59, 61}"
  shows "b64_char k \<noteq> c"
proof
  assume "b64_char k = c"
  then have "(of_char (b64_char k) :: nat) = of_char c" by simp
  with assms show False by (auto simp: of_char_b64_char split: if_splits)
qed

lemma pad_char: "(of_char CHR ''='' :: nat) \<in> {44, 58, 59, 61}"
  by simp

lemma decode_full_encode:
  "decode_full (b64_char (unat a div 4))
               (b64_char ((unat a mod 4) * 16 + unat b div 16))
               (b64_char ((unat b mod 16) * 4 + unat c div 64))
               (b64_char (unat c mod 64)) = Some [a, b, c]"
proof -
  have c4: "unat c mod 64 < 64" by simp
  note idx = b64_index_char [OF sextet1_bound [OF byte_bound [of a]]]
             b64_index_char [OF sextet2_bound [OF byte_bound [of b], of "unat a"]]
             b64_index_char [OF sextet3_bound [OF byte_bound [of c], of "unat b"]]
             b64_index_char [OF c4]
  show ?thesis
    unfolding decode_full_def idx
    by (simp only: prod.case option.case join_byte1 [OF byte_bound] join_byte2 [OF byte_bound byte_bound]
          join_byte3 [OF byte_bound]) simp
qed

lemma decode_padded_one:
  "decode_padded (b64_char (unat a div 4)) (b64_char ((unat a mod 4) * 16)) CHR ''='' = Some [a]"
proof -
  note idx = b64_index_char [OF sextet1_bound [OF byte_bound [of a]]] b64_index_char [OF sextet2_pad_bound [of "unat a"]]
  show ?thesis
    unfolding decode_padded_def idx
    by (simp only: if_True prod.case option.case join_byte1_pad) simp
qed

lemma decode_padded_two:
  "decode_padded (b64_char (unat a div 4))
                 (b64_char ((unat a mod 4) * 16 + unat b div 16))
                 (b64_char ((unat b mod 16) * 4)) = Some [a, b]"
proof -
  note idx = b64_index_char [OF sextet1_bound [OF byte_bound [of a]]]
             b64_index_char [OF sextet2_bound [OF byte_bound [of b], of "unat a"]]
             b64_index_char [OF sextet3_pad_bound [of "unat b"]]
  have np: "b64_char ((unat b mod 16) * 4) \<noteq> CHR ''=''"
    by (rule b64_char_neq [OF sextet3_pad_bound pad_char])
  show ?thesis
    unfolding decode_padded_def idx
    by (simp only: np if_False prod.case option.case join_byte1 [OF byte_bound]
          join_byte2_pad [OF byte_bound]) simp
qed

lemma base64_roundtrip: "base64_decode (base64_encode bs) = Some bs"
proof (induction bs rule: base64_encode.induct)
  case 1
  show ?case by simp
next
  case (2 a)
  show ?case by (simp add: decode_padded_one)
next
  case (3 a b)
  show ?case by (simp add: decode_padded_two)
next
  case (4 a b c bs)
  have "b64_char (unat c mod 64) \<noteq> CHR ''=''"
    by (rule b64_char_neq [OF _ pad_char]) simp
  with 4 show ?case by (simp add: decode_full_encode)
qed

lemma b64_char_plain:
  "k < 64 \<Longrightarrow> b64_char k \<noteq> CHR '','' \<and> b64_char k \<noteq> CHR '':'' \<and> b64_char k \<noteq> CHR '';''"
  using b64_char_neq [of k "CHR '',''"] b64_char_neq [of k "CHR '':''"]
        b64_char_neq [of k "CHR '';''"]
  by simp

lemma base64_plain:
  "CHR '','' \<notin> set (base64_encode bs) \<and> CHR '':'' \<notin> set (base64_encode bs)
   \<and> CHR '';'' \<notin> set (base64_encode bs)"
proof (induction bs rule: base64_encode.induct)
  case 1
  show ?case by simp
next
  case (2 a)
  show ?case
    using b64_char_plain [OF sextet1_bound [OF byte_bound [of a]]] b64_char_plain [OF sextet2_pad_bound [of "unat a"]]
    by auto
next
  case (3 a b)
  show ?case
    using b64_char_plain [OF sextet1_bound [OF byte_bound [of a]]]
          b64_char_plain [OF sextet2_bound [OF byte_bound [of b], of "unat a"]]
          b64_char_plain [OF sextet3_pad_bound [of "unat b"]]
    by auto
next
  case (4 a b c bs)
  have "unat c mod 64 < 64" by simp
  from 4 b64_char_plain [OF this] show ?case
    using b64_char_plain [OF sextet1_bound [OF byte_bound [of a]]]
          b64_char_plain [OF sextet2_bound [OF byte_bound [of b], of "unat a"]]
          b64_char_plain [OF sextet3_bound [OF byte_bound [of c], of "unat b"]]
    by auto
qed

section \<open>The encoder\<close>

lemma split_on_no_sep: "sep \<notin> set t \<Longrightarrow> split_on sep t = [t]"
  by (induction t) auto

lemma split_on_first: "sep \<notin> set h \<Longrightarrow> split_on sep (h @ sep # t) = h # split_on sep t"
  by (induction h) auto

lemma split_data_url:
  assumes "CHR '','' \<notin> set header"
  shows "split_on CHR '','' (header @ CHR '','' # base64_encode bytes) = [header, base64_encode bytes]"
  using split_on_first [OF assms, of "base64_encode bytes"]
    split_on_no_sep [of "CHR '',''" "base64_encode bytes"] base64_plain [of bytes]
  by simp

lemma data_url_shape:
  "data_url f = (''data:'' @ (if ftype f = [] then ''application/octet-stream'' else ftype f)
                   @ '';base64'') @ CHR '','' # base64_encode (content f)"
  by (simp add: data_url_def)

text \<open>Claim C6: when the read succeeds with a data URL (a header without a comma, the
  comma, and the Base64 text of the file's whole content), \<open>fileToBase64\<close> resolves with
  exactly that Base64 text: the header is gone (the result has no comma, colon or
  semicolon), and decoding the result gives back the file's bytes. This is what the
  reader delivers for every file whose declared content type contains no comma.\<close>

theorem encoder_strips_prefix_and_roundtrips:
  assumes "CHR '','' \<notin> set header"
  shows "fileToBase64 (Loaded (header @ CHR '','' # base64_encode bytes))
           = Inr (Some (base64_encode bytes))
         \<and> base64_decode (base64_encode bytes) = Some bytes
         \<and> CHR '','' \<notin> set (base64_encode bytes)
         \<and> CHR '':'' \<notin> set (base64_encode bytes)
         \<and> CHR '';'' \<notin> set (base64_encode bytes)
         \<and> (CHR '','' \<notin> set (ftype f) \<longrightarrow>
               fileToBase64 (readAsDataURL f True) = Inr (Some (base64_encode (content f))))"
proof -
  have general: "fileToBase64 (Loaded (h @ CHR '','' # base64_encode bs))
           = Inr (Some (base64_encode bs))" if "CHR '','' \<notin> set h" for h bs
    using split_data_url [OF that, of bs] by (simp add: fileToBase64_def at_index_def)
  have of_file: "fileToBase64 (readAsDataURL f True) = Inr (Some (base64_encode (content f)))"
    if "CHR '','' \<notin> set (ftype f)"
  proof -
    from that have "CHR '','' \<notin> set (''data:''
        @ (if ftype f = [] then ''application/octet-stream'' else ftype f) @ '';base64'')"
      by simp
    from general [OF this, of "content f"] show ?thesis
      by (simp only: readAsDataURL_def data_url_shape if_True)
  qed
  from general [OF assms, of bytes] of_file base64_roundtrip [of bytes] base64_plain [of bytes]
  show ?thesis by blast
qed

theorem encoder_witness:
  "CHR '','' \<notin> set ''data:image/png;base64''
   \<and> fileToBase64 (Loaded ''data:image/png;base64,QQ=='') = Inr (Some ''QQ=='')
   \<and> base64_decode ''QQ=='' = Some [0x41]
   \<and> CHR '','' \<notin> set (ftype sample_png)
   \<and> fileToBase64 (readAsDataURL sample_png True) = Inr (Some ''QQ=='')"
proof -
  have h: "CHR '','' \<notin> set ''data:image/png;base64''" by simp
  have t: "CHR '','' \<notin> set (ftype sample_png)" by (simp add: sample_png_def)
  have q: "b64_char 16 = CHR ''Q''" by code_simp
  have e: "base64_encode [0x41] = ''QQ==''" "base64_encode (content sample_png) = ''QQ==''"
    by (simp_all add: sample_png_def q)
  show ?thesis
    using encoder_strips_prefix_and_roundtrips [OF h, of "[0x41]" sample_png] h t
    unfolding e by simp
qed

section \<open>Properties of the capture component\<close>

subsection \<open>The sample runs, evaluated\<close>

lemma b64_samples:
  "b64_char 16 = CHR ''Q''" "b64_char 36 = CHR ''k''" "b64_char 12 = CHR ''M''"
  by code_simp+

lemma sample_png_payload:
  "mk_payload sample_png (at_index (split_on CHR '','' (data_url sample_png)) 1)
     = \<lparr>base64 = Some ''QQ=='', mimeType = ''image/png''\<rparr>"
  by (simp add: sample_png_def b64_samples data_url_def at_index_def mk_payload_def)

lemma sample_untyped_payload:
  "mk_payload sample_untyped (at_index (split_on CHR '','' (data_url sample_untyped)) 1)
     = \<lparr>base64 = Some ''QkM='', mimeType = ''image/jpeg''\<rparr>"
  by (simp add: sample_untyped_def b64_samples data_url_def at_index_def mk_payload_def)

lemma ready_state_eq:
  "ready_state = \<lparr>preview = Some 0,
      imageData = Some \<lparr>base64 = Some ''QQ=='', mimeType = ''image/png''\<rparr>,
      loading = False, fileInputRef = None, cameraInputRef = None, inflight = [],
      objectURLs = [sample_png], effects = []\<rparr>"
  by (simp add: ready_state_def init_def sample_png_def b64_samples commit_def
        handleFileSelect_def set_input_def input_value_def processImage_begin_def
        processImage_finish_def fileToBase64_def readAsDataURL_def data_url_def at_index_def
        mk_payload_def remove_at_def)

lemma loading_state_eq:
  "loading_state = \<lparr>preview = Some 0, imageData = None, loading = True,
      fileInputRef = None, cameraInputRef = None, inflight = [sample_png],
      objectURLs = [sample_png], effects = []\<rparr>"
  by (simp add: loading_state_def init_def commit_def handleFileSelect_def
        set_input_def input_value_def processImage_begin_def)

lemma loading_untyped_eq:
  "loading_untyped = \<lparr>preview = Some 0, imageData = None, loading = True,
      fileInputRef = None, cameraInputRef = None, inflight = [sample_untyped],
      objectURLs = [sample_untyped], effects = []\<rparr>"
  by (simp add: loading_untyped_def init_def commit_def handleFileSelect_def
        set_input_def input_value_def processImage_begin_def)



lemma overlapped_eq:
  "overlapped = \<lparr>preview = Some 1,
      imageData = Some \<lparr>base64 = Some ''QQ=='', mimeType = ''image/png''\<rparr>,
      loading = False, fileInputRef = None, cameraInputRef = None, inflight = [],
      objectURLs = [sample_png, sample_untyped], effects = []\<rparr>"
  by (simp add: overlapped_def init_def sample_png_def sample_untyped_def b64_samples commit_def
        handleFileSelect_def handleClear_def
        set_input_def input_value_def processImage_begin_def processImage_finish_def
        fileToBase64_def readAsDataURL_def data_url_def at_index_def mk_payload_def remove_at_def)

lemma stale_then_failed_eq:
  "stale_then_failed = \<lparr>preview = Some 1,
      imageData = Some \<lparr>base64 = Some ''QQ=='', mimeType = ''image/png''\<rparr>,
      loading = False, fileInputRef = None, cameraInputRef = None, inflight = [],
      objectURLs = [sample_png, sample_untyped], effects = [ConsoleError ReadFailure]\<rparr>"
  by (simp add: stale_then_failed_def init_def sample_png_def sample_untyped_def b64_samples
        commit_def handleFileSelect_def handleClear_def
        set_input_def input_value_def processImage_begin_def processImage_finish_def
        fileToBase64_def readAsDataURL_def data_url_def at_index_def mk_payload_def remove_at_def)

subsection \<open>Confirm\<close>

text \<open>Claim C4: \<open>confirm()\<close> (\<open>handleSubmit\<close>) without a payload is a no-op: the state is
  unchanged and \<open>onSubmit\<close> is not called; with a payload it calls \<open>onSubmit\<close> exactly
  once, with that payload, and changes nothing else. A click on the submit button while
  no payload is present does nothing either, and a click with payload and preview
  present and the loading flag clear is that one call.\<close>

theorem confirm_noop_or_submit_once:
  "(imageData s = None \<longrightarrow> handleSubmit s = s \<and> ui_step ClickSubmit s = s)
   \<and> (\<forall>d. imageData s = Some d \<longrightarrow>
          handleSubmit s = s\<lparr>effects := effects s @ [OnSubmit d]\<rparr>
          \<and> (\<not> loading s \<and> preview s \<noteq> None \<longrightarrow>
               ui_step ClickSubmit s = s\<lparr>effects := effects s @ [OnSubmit d]\<rparr>))"
  by (simp add: handleSubmit_def render_def)

theorem confirm_witness:
  "handleSubmit init = init \<and> ui_step ClickSubmit init = init
   \<and> effects (ui_step ClickSubmit ready_state)
       = [OnSubmit \<lparr>base64 = Some ''QQ=='', mimeType = ''image/png''\<rparr>]"
  using confirm_noop_or_submit_once [of init] confirm_noop_or_submit_once [of ready_state]
  by (simp add: ready_state_eq) (simp add: init_def)

subsection \<open>Clear\<close>

text \<open>Claim C7: \<open>clear()\<close> (\<open>handleClear\<close>) resets preview and payload in every state, so
  no submit button is rendered afterwards; after a completed selection (preview and
  payload present, loading flag clear) the component renders exactly as it did
  initially, and the click on Remove leaves every cell of the component as in the
  initial state: the state holds no preview reference any more.\<close>

theorem clear_resets_to_empty:
  "preview (handleClear s) = None \<and> imageData (handleClear s) = None
   \<and> submit_button (render p (handleClear s)) = None
   \<and> \<not> submit_enabled (handleClear s)
   \<and> (preview s \<noteq> None \<and> imageData s \<noteq> None \<and> \<not> loading s \<longrightarrow>
        render p (handleClear s) = render p init
        \<and> ui_step ClickRemove s
            = init\<lparr>inflight := inflight s, objectURLs := objectURLs s, effects := effects s\<rparr>)"
  by (auto simp: handleClear_def render_def submit_enabled_def init_def commit_def
        split: option.splits)

theorem clear_witness:
  "render None (handleClear ready_state) = render None init
   \<and> ui_step ClickRemove ready_state = init\<lparr>objectURLs := [sample_png]\<rparr>"
  using clear_resets_to_empty [of ready_state None]
  by (simp add: ready_state_eq) (simp add: init_def)

subsection \<open>The declared content type\<close>

text \<open>Claim C8: when a read succeeds, the payload stored for a file without a declared
  content type has \<open>mimeType = 'image/jpeg'\<close>, and the payload stored for a file with a
  declared type has that type; this holds for the handler and for the settling of any
  read in flight.\<close>

theorem mime_type_defaults_to_jpeg:
  "(ftype f = [] \<longrightarrow>
      imageData (processImage_finish f (Loaded r) s)
        = Some \<lparr>base64 = at_index (split_on CHR '','' r) 1, mimeType = ''image/jpeg''\<rparr>)
   \<and> (ftype f \<noteq> [] \<longrightarrow>
      imageData (processImage_finish f (Loaded r) s)
        = Some \<lparr>base64 = at_index (split_on CHR '','' r) 1, mimeType = ftype f\<rparr>)
   \<and> (k < length (inflight s) \<and> ftype (inflight s ! k) = [] \<longrightarrow>
      imageData (ui_step (ReadSettled k True) s)
        = Some \<lparr>base64 = at_index (split_on CHR '','' (data_url (inflight s ! k))) 1,
                 mimeType = ''image/jpeg''\<rparr>)
   \<and> (k < length (inflight s) \<and> ftype (inflight s ! k) \<noteq> [] \<longrightarrow>
      imageData (ui_step (ReadSettled k True) s)
        = Some \<lparr>base64 = at_index (split_on CHR '','' (data_url (inflight s ! k))) 1,
                 mimeType = ftype (inflight s ! k)\<rparr>)"
  by (simp add: processImage_finish_def fileToBase64_def mk_payload_def readAsDataURL_def
        commit_def)

theorem mime_type_witness:
  "imageData (processImage_finish sample_untyped (Loaded ''data:;base64,QkM='') loading_untyped)
     = Some \<lparr>base64 = Some ''QkM='', mimeType = ''image/jpeg''\<rparr>
   \<and> imageData (ui_step (ReadSettled 0 True) loading_untyped)
     = Some \<lparr>base64 = Some ''QkM='', mimeType = ''image/jpeg''\<rparr>
   \<and> imageData (processImage_finish sample_png (Loaded ''data:image/png;base64,QQ=='') loading_state)
     = Some \<lparr>base64 = Some ''QQ=='', mimeType = ''image/png''\<rparr>
   \<and> imageData (ui_step (ReadSettled 0 True) loading_state)
     = Some \<lparr>base64 = Some ''QQ=='', mimeType = ''image/png''\<rparr>"
proof -
  have u: "ftype sample_untyped = []" "inflight loading_untyped = [sample_untyped]"
    "data_url sample_untyped = ''data:application/octet-stream;base64,QkM=''"
    by (simp_all add: loading_untyped_eq) (simp_all add: sample_untyped_def data_url_def b64_samples)
  have p: "ftype sample_png = ''image/png''" "inflight loading_state = [sample_png]"
    "data_url sample_png = ''data:image/png;base64,QQ==''"
    by (simp_all add: loading_state_eq) (simp_all add: sample_png_def data_url_def b64_samples)
  show ?thesis
    using mime_type_defaults_to_jpeg [of sample_untyped "''data:;base64,QkM=''" loading_untyped 0]
      mime_type_defaults_to_jpeg [of sample_png "''data:image/png;base64,QQ==''" loading_state 0]
    by (simp add: u p at_index_def)
qed

subsection \<open>Skip\<close>

text \<open>Against claim C2 as stated: right after a file is selected the loading flag is
  set, the skip button is disabled, and a click on it calls nothing.\<close>

theorem skip_blocked_while_loading:
  "loading loading_state \<and> \<not> skip_enabled loading_state
   \<and> effects (ui_step ClickSkip loading_state) = []"
  by (simp add: loading_state_eq skip_enabled_def render_def)

text \<open>Claim C2, amended: while the loading flag is clear, skip is available and a click
  on it calls \<open>onSkip\<close> exactly once, calls \<open>onSubmit\<close> never and changes nothing else;
  while the loading flag is set the button is disabled and a click has no effect.\<close>

theorem skip_once_unless_loading:
  "(\<not> loading s \<longrightarrow> skip_enabled s \<and> ui_step ClickSkip s = s\<lparr>effects := effects s @ [OnSkip]\<rparr>)
   \<and> (loading s \<longrightarrow> \<not> skip_enabled s \<and> ui_step ClickSkip s = s)"
  by (simp add: skip_enabled_def render_def)

theorem skip_witness:
  "effects (ui_step ClickSkip init) = [OnSkip] \<and> effects (ui_step ClickSkip ready_state) = [OnSkip]
   \<and> ui_step ClickSkip loading_state = loading_state"
  using skip_once_unless_loading [of init] skip_once_unless_loading [of ready_state]
    skip_once_unless_loading [of loading_state]
  by (simp add: ready_state_eq loading_state_eq init_def render_def skip_enabled_def)

subsection \<open>A failed encode\<close>

text \<open>Against claim C5 as stated: a payload left by an earlier selection (its encode
  completed after the preview was removed) survives the failed encode of the next
  selection, and the submit button is then enabled with it.\<close>

theorem failed_encode_keeps_stale_payload:
  "imageData stale_then_failed = Some \<lparr>base64 = Some ''QQ=='', mimeType = ''image/png''\<rparr>
   \<and> submit_enabled stale_then_failed"
  by (simp add: stale_then_failed_eq submit_enabled_def render_def)

text \<open>Claim C5, amended: a failed encode never propagates: the handler ends normally,
  \<open>console.error\<close> is called once, the loading flag is cleared, and preview and payload
  stay as they were. So no payload is available for submission when none was stored
  before the failure, and the preview of the failed file remains.\<close>

theorem failed_encode_is_swallowed:
  "processImage_finish f ReadError s
     = s\<lparr>effects := effects s @ [ConsoleError ReadFailure], loading := False\<rparr>
   \<and> (k < length (inflight s) \<longrightarrow>
        effects (ui_step (ReadSettled k False) s) = effects s @ [ConsoleError ReadFailure]
        \<and> \<not> loading (ui_step (ReadSettled k False) s)
        \<and> preview (ui_step (ReadSettled k False) s) = preview s
        \<and> imageData (ui_step (ReadSettled k False) s) = imageData s
        \<and> (imageData s = None \<longrightarrow> \<not> submit_enabled (ui_step (ReadSettled k False) s)))"
  by (simp add: processImage_finish_def fileToBase64_def readAsDataURL_def commit_def
        submit_enabled_def render_def)

theorem failed_encode_witness:
  "0 < length (inflight loading_state)
   \<and> effects (ui_step (ReadSettled 0 False) loading_state) = [ConsoleError ReadFailure]
   \<and> \<not> loading (ui_step (ReadSettled 0 False) loading_state)
   \<and> preview (ui_step (ReadSettled 0 False) loading_state) = Some 0
   \<and> imageData (ui_step (ReadSettled 0 False) loading_state) = None
   \<and> \<not> submit_enabled (ui_step (ReadSettled 0 False) loading_state)"
proof -
  have k: "0 < length (inflight loading_state)" by (simp add: loading_state_eq)
  have e: "effects loading_state = []" "preview loading_state = Some 0"
    "imageData loading_state = None" by (simp_all add: loading_state_eq)
  show ?thesis
    using failed_encode_is_swallowed [of sample_png loading_state 0] k by (simp add: e)
qed

subsection \<open>Overlapping selections\<close>

text \<open>Against claim C1 as stated: select a PNG, remove the preview while the encode is
  in flight, select a second file, and let the second encode complete before the first.
  The payload finally stored is the first file's, under the second file's preview.\<close>

theorem stale_encode_overwrites_newer_selection:
  "imageData overlapped = Some (encoded_payload sample_png)
   \<and> imageData overlapped \<noteq> Some (encoded_payload sample_untyped)
   \<and> encoded_payload sample_png = \<lparr>base64 = Some ''QQ=='', mimeType = ''image/png''\<rparr>
   \<and> encoded_payload sample_untyped = \<lparr>base64 = Some ''QkM='', mimeType = ''image/jpeg''\<rparr>
   \<and> preview overlapped = Some 1 \<and> objectURLs overlapped ! 1 = sample_untyped"
proof -
  have p1: "encoded_payload sample_png = \<lparr>base64 = Some ''QQ=='', mimeType = ''image/png''\<rparr>"
    unfolding encoded_payload_def by (rule sample_png_payload)
  have p2: "encoded_payload sample_untyped = \<lparr>base64 = Some ''QkM='', mimeType = ''image/jpeg''\<rparr>"
    unfolding encoded_payload_def by (rule sample_untyped_payload)
  have st: "imageData overlapped = Some \<lparr>base64 = Some ''QQ=='', mimeType = ''image/png''\<rparr>"
    "preview overlapped = Some 1" "objectURLs overlapped ! 1 = sample_untyped"
    by (simp_all add: overlapped_eq)
  have ne: "imageData overlapped \<noteq> Some (encoded_payload sample_untyped)"
    unfolding st p2 by simp
  from p1 p2 st ne show ?thesis by simp
qed

text \<open>Claim C1, amended: when \<open>selectFile\<close> is called a second time before the first
  encode completes (with or without a \<open>clear()\<close> in between) and both encodes succeed,
  the payload finally stored is that of the encode that completes last: the second
  file's when the encodes complete in the order of selection, the first file's when the
  first completes after the second. The preview is the second file's in both cases.\<close>

theorem last_completion_wins:
  fixes s :: component and fa fb :: jsfile and cleared :: bool
  defines "s2 \<equiv> handleFileSelect (Some fb)
                  ((if cleared then handleClear else id) (handleFileSelect (Some fa) s))"
  defines "n \<equiv> length (inflight s)"
  shows "imageData (run [ReadSettled n True, ReadSettled n True] s2) = Some (encoded_payload fb)
         \<and> imageData (run [ReadSettled (Suc n) True, ReadSettled n True] s2)
             = Some (encoded_payload fa)
         \<and> preview (run [ReadSettled n True, ReadSettled n True] s2)
             = Some (Suc (length (objectURLs s)))
         \<and> preview (run [ReadSettled (Suc n) True, ReadSettled n True] s2)
             = Some (Suc (length (objectURLs s)))
         \<and> objectURLs s2 ! Suc (length (objectURLs s)) = fb"
  unfolding s2_def n_def
  by (simp add: handleFileSelect_def handleClear_def processImage_begin_def
        processImage_finish_def fileToBase64_def readAsDataURL_def commit_def remove_at_def
        nth_append encoded_payload_def)

theorem last_completion_witness:
  "imageData (run [ReadSettled 0 True, ReadSettled 0 True]
       (handleFileSelect (Some sample_untyped) (handleFileSelect (Some sample_png) init)))
     = Some \<lparr>base64 = Some ''QkM='', mimeType = ''image/jpeg''\<rparr>
   \<and> imageData (run [ReadSettled 1 True, ReadSettled 0 True]
       (handleFileSelect (Some sample_untyped) (handleFileSelect (Some sample_png) init)))
     = Some \<lparr>base64 = Some ''QQ=='', mimeType = ''image/png''\<rparr>"
proof -
  have n: "length (inflight init) = 0" by (simp add: init_def)
  have p1: "encoded_payload sample_png = \<lparr>base64 = Some ''QQ=='', mimeType = ''image/png''\<rparr>"
    unfolding encoded_payload_def by (rule sample_png_payload)
  have p2: "encoded_payload sample_untyped = \<lparr>base64 = Some ''QkM='', mimeType = ''image/jpeg''\<rparr>"
    unfolding encoded_payload_def by (rule sample_untyped_payload)
  show ?thesis
    using last_completion_wins [where s = init and fa = sample_png and fb = sample_untyped
        and cleared = False]
    unfolding n p1 p2 by simp
qed

subsection \<open>Reachable states\<close>















section \<open>Properties of the response logger\<close>

lemma log_response_response: "response (log_response e req st w) = response w"
  by (simp add: log_response_def Let_def split: sum.splits)

lemma log_response_unwritable:
  "\<not> writable e \<Longrightarrow> log_response e req st w = w\<lparr>console := console w @ [ErrorLine IOError]\<rparr>"
  by (simp add: log_response_def logToFile_def Let_def)

text \<open>Claim C9 fails for \<open>res.end(callback)\<close>: the \<open>end\<close> wrapper converts its first
  argument with \<open>Buffer.from\<close> before the \<open>try\<close> block, and for a function that
  conversion throws. The logger's own failure is not caught: the wrapper throws the
  \<open>TypeError\<close>, nothing is written to the console, and the response is left as it was,
  since the original \<open>end\<close> is never called.\<close>

theorem end_with_callback_failure_is_not_caught:
  "capture Callback (chunks sample_world) = Inl TypeError
   \<and> res_end sample_env sample_request (\<lambda>r. 200) (record_call ''end'') Callback ()
         sample_world
       = (Inl TypeError, sample_world)
   \<and> console sample_world = [] \<and> response sample_world = []"
  by (simp add: res_end_def capture_def truthy_def to_buffer_def sample_world_def)

text \<open>What the \<open>try\<close> block does achieve, for every first argument the wrapper can
  collect: when appending the entry fails (the log path is not writable) the failure is
  reported with \<open>console.error\<close>, the log file stays as it was, and the original \<open>end\<close>
  is called with the same chunk and arguments on the untouched response; its outcome is
  the wrapper's.\<close>

lemma append_failure_is_caught:
  assumes "capture c (chunks w) = Inr cs" and "\<not> writable e"
  shows "res_end e req statusOf originalEnd c args w =
           (fst (originalEnd c args (response w)),
            w\<lparr>chunks := cs, console := console w @ [ErrorLine IOError],
              response := snd (originalEnd c args (response w))\<rparr>)"
  using assms
  by (simp add: res_end_def log_response_unwritable Let_def split: prod.splits)

lemma append_failure_sample:
  "capture (Text ''{}'') (chunks sample_world) = Inr [[0x7B, 0x7D]]
   \<and> \<not> writable sample_env
   \<and> res_end sample_env sample_request (\<lambda>r. 200) (record_call ''end'') (Text ''{}'') ()
         sample_world
       = (Inr True, \<lparr>response = [''end(text)''], chunks = [[0x7B, 0x7D]],
                     log_file = ''=== API Response Logs ==='',
                     console = [ErrorLine IOError]\<rparr>)"
proof -
  have c: "capture (Text ''{}'') (chunks sample_world) = Inr [[0x7B, 0x7D]]"
    by (simp add: capture_def truthy_def to_buffer_def sample_world_def)
  have u: "\<not> writable sample_env" by (simp add: sample_env_def)
  show ?thesis
    using append_failure_is_caught [OF c u, of sample_request "\<lambda>r. 200"
        "record_call ''end''" "()"] c u
    by (simp add: record_call_def sample_world_def)
qed

subsection \<open>Forwarding\<close>

lemma sample_request_is_api_call: "isApiCall sample_request"
  by (simp add: isApiCall_def apiPaths_def startsWith_def sample_request_def)

text \<open>Claim C10 fails, by the same conversion, for \<open>res.end(callback)\<close> on a logged
  request: the callback is
  truthy and no \<open>Buffer\<close>, so \<open>Buffer.from\<close> throws before the \<open>try\<close> block. The
  wrapper throws a \<open>TypeError\<close>; the response is untouched, since the original
  \<open>end\<close>, which would have ended it, is never called, and nothing reaches the console.\<close>

theorem end_with_callback_never_reaches_original:
  "middleware sample_request = Wrappers
   \<and> invoke (middleware sample_request) sample_env sample_request (\<lambda>r. 200)
        (record_call ''write'') (record_call ''end'') (End Callback ()) sample_world
       = (Inl TypeError, sample_world)
   \<and> invoke Originals sample_env sample_request (\<lambda>r. 200)
        (record_call ''write'') (record_call ''end'') (End Callback ()) sample_world
       = (Inr True, sample_world\<lparr>response := [''end(callback)'']\<rparr>)"
  by (simp add: middleware_def sample_request_is_api_call
        invoke_def res_end_def capture_def truthy_def to_buffer_def unwrapped_def
        record_call_def sample_world_def)

text \<open>For every other first argument the wrappers do forward: the outcome and the
  response are those of the original methods, call by call and over a whole sequence
  of calls, and a request outside the allowlist keeps the original methods.\<close>

lemma capture_total: "c \<noteq> Callback \<Longrightarrow> \<exists>cs'. capture c cs = Inr cs'"
  by (cases c) (simp_all add: capture_def truthy_def to_buffer_def)

lemma invoke_forwards:
  assumes "call_chunk cl \<noteq> Callback" and "response w1 = response w2"
  shows "observable (invoke Wrappers e req statusOf ow oe cl w1)
           = observable (invoke Originals e req statusOf ow oe cl w2)"
proof (cases cl)
  case (Write c args)
  with assms have c: "c \<noteq> Callback" by simp
  from capture_total [OF c] obtain cs' where "capture c (chunks w1) = Inr cs'" by blast
  with Write assms(2) show ?thesis
    by (simp add: invoke_def observable_def res_write_def unwrapped_def split: prod.splits)
next
  case (End c args)
  with assms have c: "c \<noteq> Callback" by simp
  from capture_total [OF c] obtain cs' where "capture c (chunks w1) = Inr cs'" by blast
  with End assms(2) show ?thesis
    by (simp add: invoke_def observable_def res_end_def unwrapped_def log_response_response
          Let_def split: prod.splits)
qed

lemma run_calls_forwards:
  assumes "Callback \<notin> call_chunk ` set cls" and "response w1 = response w2"
  shows "observable (run_calls Wrappers e req statusOf ow oe cls w1)
           = observable (run_calls Originals e req statusOf ow oe cls w2)"
  using assms
proof (induction cls arbitrary: w1 w2)
  case Nil
  then show ?case by (simp add: observable_def)
next
  case (Cons cl cls)
  from Cons.prems have c: "call_chunk cl \<noteq> Callback" and rest: "Callback \<notin> call_chunk ` set cls"
    by auto
  obtain o1 w1' where i1: "invoke Wrappers e req statusOf ow oe cl w1 = (o1, w1')"
    by (cases "invoke Wrappers e req statusOf ow oe cl w1")
  obtain o2 w2' where i2: "invoke Originals e req statusOf ow oe cl w2 = (o2, w2')"
    by (cases "invoke Originals e req statusOf ow oe cl w2")
  from invoke_forwards [OF c Cons.prems(2), of e req statusOf ow oe] i1 i2
  have same: "o1 = o2" "response w1' = response w2'" by (simp_all add: observable_def)
  show ?case
  proof (cases o1)
    case (Inl err)
    with same i1 i2 show ?thesis by (auto simp: observable_def)
  next
    case (Inr v)
    from Cons.IH [OF rest same(2)] Inr same i1 i2 show ?thesis
      by (auto simp: observable_def split: prod.splits sum.splits)
  qed
qed

lemma not_api_call_untouched:
  "\<not> isApiCall req \<Longrightarrow>
     invoke (middleware req) e req statusOf originalWrite originalEnd cl w
       = (case cl of Write c args \<Rightarrow> unwrapped originalWrite c args w
                   | End c args \<Rightarrow> unwrapped originalEnd c args w)"
  by (simp add: middleware_def invoke_def split: call.splits)

end
